theory Spec2Isabelle
  imports Main "HOL-Library.Sublist"
begin

section \<open>Python strings\<close>

text \<open>
  A Python \<open>str\<close> is modelled as a \<open>string\<close>, one \<open>char\<close> per code point; the model
  therefore covers the code points below 256. The operations below are the
  \<open>str\<close> methods that \<open>app.py\<close> calls, with the library's behaviour written out.
\<close>

text \<open>\<open>c.isspace()\<close> on the code points below 256.\<close>

definition isspace :: "char \<Rightarrow> bool" where
  "isspace c = ((of_char c :: nat) \<in> {9, 10, 11, 12, 13, 28, 29, 30, 31, 32, 133, 160})"

text \<open>\<open>s.strip()\<close>: whitespace removed at both ends.\<close>

definition strip :: "string \<Rightarrow> string" where
  "strip s = rev (dropWhile isspace (rev (dropWhile isspace s)))"

text \<open>\<open>sub in s\<close>: \<open>sub\<close> occurs in \<open>s\<close> as a contiguous run.\<close>

fun contains :: "string \<Rightarrow> string \<Rightarrow> bool" where
  "contains sub [] = (sub = [])"
| "contains sub (c # cs) = (prefix sub (c # cs) \<or> contains sub cs)"

text \<open>
  \<open>s.split(sep)\<close>: the pieces between the occurrences of \<open>sep\<close>, found from the left
  without overlap. Python raises \<open>ValueError\<close> on an empty separator; every separator
  in \<open>app.py\<close> is a non-empty literal, and the model treats an empty one as absent.
\<close>

fun split_str :: "string \<Rightarrow> string \<Rightarrow> string list" where
  "split_str sep [] = [[]]"
| "split_str sep (c # cs) =
     (if sep \<noteq> [] \<and> prefix sep (c # cs)
      then [] # split_str sep (drop (length sep - 1) cs)
      else (case split_str sep cs of
              [] \<Rightarrow> [[c]]
            | p # ps \<Rightarrow> (c # p) # ps))"

text \<open>\<open>s.replace(old, new)\<close> for a non-empty \<open>old\<close>, from the left without overlap.\<close>

fun replace_str :: "string \<Rightarrow> string \<Rightarrow> string \<Rightarrow> string" where
  "replace_str old new [] = []"
| "replace_str old new (c # cs) =
     (if old \<noteq> [] \<and> prefix old (c # cs)
      then new @ replace_str old new (drop (length old - 1) cs)
      else c # replace_str old new cs)"

text \<open>\<open>str(n)\<close> for a non-negative integer: its decimal digits.\<close>

definition digit_char :: "nat \<Rightarrow> char" where
  "digit_char d = ''0123456789'' ! d"

fun str_nat :: "nat \<Rightarrow> string" where
  "str_nat n = (if n < 10 then [digit_char n] else str_nat (n div 10) @ [digit_char (n mod 10)])"

declare str_nat.simps [simp del]

text \<open>\<open>s.lower()\<close> on the ASCII letters; no other code point lowers to one of them.\<close>

definition lower_char :: "char \<Rightarrow> char" where
  "lower_char c = (let n = (of_char c :: nat) in if 65 \<le> n \<and> n \<le> 90 then char_of (n + 32) else c)"

definition lower :: "string \<Rightarrow> string" where
  "lower s = map lower_char s"

section \<open>Citations parsed from chunk text\<close>

record source_info =
  document :: string
  page :: string

datatype exn = Exception (message: string)

text \<open>
  The body of the \<open>try\<close> in \<open>extract_source_info\<close>, for one line: \<open>Inr (Some src)\<close> is the
  \<open>return\<close>, \<open>Inr None\<close> falls out of the \<open>if\<close>, and \<open>Inl\<close> is the \<open>IndexError\<close> of
  \<open>parts[0].split('--- Page ')[1]\<close>.
\<close>

definition parse_marker_line :: "string \<Rightarrow> exn + source_info option" where
  "parse_marker_line line =
     (let parts = split_str '' of '' line in
      if length parts > 1 then
        (let filename = strip (replace_str '' ---'' [] (parts ! 1));
             pieces = split_str ''--- Page '' (parts ! 0)
         in if length pieces > 1
            then Inr (Some \<lparr>document = filename, page = strip (pieces ! 1)\<rparr>)
            else Inl (Exception ''list index out of range''))
      else Inr None)"

text \<open>The \<open>for line in lines\<close> loop; the bare \<open>except\<close> continues with the next line.\<close>

fun source_of_lines :: "string list \<Rightarrow> source_info option" where
  "source_of_lines [] = None"
| "source_of_lines (line # lines) =
     (if contains ''--- Page'' line \<and> contains ''of'' line then
        (case parse_marker_line line of
           Inr (Some src) \<Rightarrow> Some src
         | Inr None \<Rightarrow> source_of_lines lines
         | Inl e \<Rightarrow> source_of_lines lines)
      else source_of_lines lines)"

definition extract_source_info :: "string \<Rightarrow> source_info option" where
  "extract_source_info content = source_of_lines (split_str ''\<newline>'' content)"

section \<open>Collaborators outside the repository\<close>

text \<open>
  A vector store as \<open>FAISS.from_texts\<close> builds it: the texts in insertion order and one
  embedding vector for each, obtained from one call of the embedding backend.
\<close>

record 'v faiss =
  docstore :: "string list"
  index :: "'v list"

text \<open>
  The libraries and backends that \<open>app.py\<close> calls, taken as parameters. Each call either
  raises (\<open>Inl\<close>) or returns (\<open>Inr\<close>).
  \<^item> \<open>text_splitter chunk_size chunk_overlap\<close> is the constructor
    \<open>RecursiveCharacterTextSplitter(chunk_size=..., chunk_overlap=...)\<close>; what it returns
    is the object's \<open>split_text\<close>.
  \<^item> \<open>embed_documents\<close> is the embedding backend behind \<open>FAISS.from_texts\<close>.
  \<^item> \<open>save_local\<close> writes the index to disk.
  \<^item> \<open>similarity_search store question k\<close> returns the \<open>page_content\<close> of the retrieved
    documents, best match first.
  \<^item> \<open>conversational_chain\<close> is what \<open>get_conversational_chain()\<close> builds from the prompt
    template and the chat model; calling the chain on the retrieved documents and the
    question gives \<open>response["output_text"]\<close>.
\<close>

record 'v library =
  text_splitter :: "int \<Rightarrow> int \<Rightarrow> exn + (string \<Rightarrow> exn + string list)"
  embed_documents :: "string list \<Rightarrow> exn + 'v list"
  save_local :: "'v faiss \<Rightarrow> exn + unit"
  similarity_search :: "'v faiss \<Rightarrow> string \<Rightarrow> nat \<Rightarrow> exn + string list"
  conversational_chain :: "exn + (string list \<Rightarrow> string \<Rightarrow> exn + string)"

definition FAISS_from_texts :: "'v library \<Rightarrow> string list \<Rightarrow> exn + 'v faiss" where
  "FAISS_from_texts L texts =
     (case embed_documents L texts of
        Inl e \<Rightarrow> Inl e
      | Inr vectors \<Rightarrow> Inr \<lparr>docstore = texts, index = vectors\<rparr>)"

text \<open>The module-level configuration read from the environment.\<close>

record config =
  MAX_FILE_SIZE_MB :: int
  CHUNK_SIZE :: int
  CHUNK_OVERLAP :: int

text \<open>
  An uploaded file: its name, its size in bytes, and what \<open>PdfReader\<close> makes of its
  bytes: an exception, or the pages, each of which raises or returns its text on
  \<open>extract_text()\<close>. The bytes do not change, so every \<open>PdfReader(file)\<close> gives the same.
\<close>

record uploaded_file =
  name :: string
  size_bytes :: int
  reader :: "exn + (exn + string) list"

section \<open>What the user interface is shown\<close>

datatype validation_error =
  FileTooLarge
| OnlyPdfSupported
| PdfEmpty
| InvalidOrCorrupted

text \<open>The \<open>st.error\<close> and \<open>st.success\<close> calls, in the order they are made.\<close>

datatype ui_message =
  ErrorReading string exn
| ErrorCreatingVectorStore exn
| InvalidFile string validation_error
| NoTextExtracted string
| NoValidChunks string
| ErrorProcessing string exn
| FailedVectorDatabase
| Success nat
| NoDocumentsProcessed

section \<open>Session state\<close>

text \<open>
  \<open>round(size / (1024 * 1024), 2)\<close> in hundredths of a megabyte. The quotient by a power
  of two is exact in floating point, and \<open>round\<close> goes to the nearest hundredth, to the
  even one when two are equally near.
\<close>

definition round_mb :: "int \<Rightarrow> int" where
  "round_mb n =
     (let q = (n * 100) div 1048576; r = (n * 100) mod 1048576
      in if 2 * r < 1048576 then q
         else if 2 * r > 1048576 then q + 1
         else if even q then q else q + 1)"

text \<open>
  One entry of \<open>st.session_state.processed_documents\<close>; \<open>size_mb\<close> counts hundredths of a
  megabyte.
\<close>

record metadata =
  pages :: nat
  chunks :: nat
  size_mb :: int
  processed_time :: string

record 'v session_state =
  processed_documents :: "string \<rightharpoonup> metadata"
  vector_store :: "'v faiss option"

section \<open>Extraction\<close>

text \<open>The header written in front of each page's text, \<open>page_num\<close> counting from 0.\<close>

definition page_marker :: "nat \<Rightarrow> string \<Rightarrow> string" where
  "page_marker page_num nm =
     ''\<newline>\<newline>--- Page '' @ str_nat (page_num + 1) @ '' of '' @ nm @ '' ---\<newline>''"

text \<open>
  The \<open>for page_num, page in enumerate(pdf_reader.pages)\<close> loop on the text collected so
  far. An exception of \<open>extract_text()\<close> leaves the loop; the text appended before it
  stays.
\<close>

fun extract_pages :: "string \<Rightarrow> nat \<Rightarrow> (exn + string) list \<Rightarrow> string \<Rightarrow> string \<times> exn option" where
  "extract_pages nm page_num [] text = (text, None)"
| "extract_pages nm page_num (Inl e # rest) text = (text, Some e)"
| "extract_pages nm page_num (Inr page_text # rest) text =
     extract_pages nm (page_num + 1) rest
       (if strip page_text \<noteq> [] then text @ page_marker page_num nm @ page_text else text)"

fun pdf_text_loop :: "uploaded_file list \<Rightarrow> string \<Rightarrow> ui_message list \<Rightarrow> string \<times> ui_message list" where
  "pdf_text_loop [] text ui = (text, ui)"
| "pdf_text_loop (pdf_doc # pdf_docs) text ui =
     (case reader pdf_doc of
        Inl e \<Rightarrow> pdf_text_loop pdf_docs text (ui @ [ErrorReading (name pdf_doc) e])
      | Inr pdf_pages \<Rightarrow>
          (case extract_pages (name pdf_doc) 0 pdf_pages text of
             (text', None) \<Rightarrow> pdf_text_loop pdf_docs text' ui
           | (text', Some e) \<Rightarrow>
               pdf_text_loop pdf_docs text' (ui @ [ErrorReading (name pdf_doc) e])))"

definition get_pdf_text :: "uploaded_file list \<Rightarrow> string \<times> ui_message list" where
  "get_pdf_text pdf_docs = pdf_text_loop pdf_docs [] []"

section \<open>Chunking\<close>

definition get_text_chunks :: "'v library \<Rightarrow> config \<Rightarrow> string \<Rightarrow> exn + string list" where
  "get_text_chunks L cfg text =
     (case text_splitter L (CHUNK_SIZE cfg) (CHUNK_OVERLAP cfg) of
        Inl e \<Rightarrow> Inl e
      | Inr split_text \<Rightarrow>
          (case split_text text of
             Inl e \<Rightarrow> Inl e
           | Inr pieces \<Rightarrow> Inr (filter (\<lambda>chunk. length (strip chunk) > 100) pieces)))"

section \<open>Index build\<close>

definition get_vector_store :: "'v library \<Rightarrow> string list \<Rightarrow> 'v faiss option \<times> ui_message list" where
  "get_vector_store L text_chunks =
     (case FAISS_from_texts L text_chunks of
        Inl e \<Rightarrow> (None, [ErrorCreatingVectorStore e])
      | Inr store \<Rightarrow>
          (case save_local L store of
             Inl e \<Rightarrow> (None, [ErrorCreatingVectorStore e])
           | Inr _ \<Rightarrow> (Some store, [])))"

section \<open>Answering a question\<close>

record response =
  answer :: string
  sources :: "source_info list"

text \<open>The \<open>for doc in docs\<close> loop that appends each citation found.\<close>

fun collect_sources :: "string list \<Rightarrow> source_info list \<Rightarrow> source_info list" where
  "collect_sources [] srcs = srcs"
| "collect_sources (doc # docs) srcs =
     (case extract_source_info doc of
        Some source_info \<Rightarrow> collect_sources docs (srcs @ [source_info])
      | None \<Rightarrow> collect_sources docs srcs)"

definition error_response :: "exn \<Rightarrow> response" where
  "error_response e = \<lparr>answer = ''Error processing question: '' @ message e, sources = []\<rparr>"

text \<open>
  \<open>process_question\<close> returns its dictionary; the second component lists the calls made to
  the generation chain, each with the documents and the question it was given.
\<close>

definition process_question ::
  "'v library \<Rightarrow> 'v session_state \<Rightarrow> string \<Rightarrow> response \<times> (string list \<times> string) list" where
  "process_question L st question =
     (case vector_store st of
        None \<Rightarrow>
          (\<lparr>answer = ''Please upload and process documents first.'', sources = []\<rparr>, [])
      | Some store \<Rightarrow>
          (case similarity_search L store question 5 of
             Inl e \<Rightarrow> (error_response e, [])
           | Inr docs \<Rightarrow>
               if docs = [] then
                 (\<lparr>answer = ''No relevant information found in the documents.'', sources = []\<rparr>, [])
               else
                 (case conversational_chain L of
                    Inl e \<Rightarrow> (error_response e, [])
                  | Inr chain \<Rightarrow>
                      (case chain docs question of
                         Inl e \<Rightarrow> (error_response e, [(docs, question)])
                       | Inr output_text \<Rightarrow>
                           (\<lparr>answer = output_text, sources = collect_sources docs []\<rparr>,
                            [(docs, question)])))))"

section \<open>Processing a batch of documents\<close>

definition validate_pdf_file :: "config \<Rightarrow> uploaded_file \<Rightarrow> validation_error option" where
  "validate_pdf_file cfg uploaded_file =
     (if size_bytes uploaded_file > MAX_FILE_SIZE_MB cfg * (1024 * 1024) then Some FileTooLarge
      else if \<not> suffix ''.pdf'' (lower (name uploaded_file)) then Some OnlyPdfSupported
      else (case reader uploaded_file of
              Inl e \<Rightarrow> Some InvalidOrCorrupted
            | Inr pdf_pages \<Rightarrow> if length pdf_pages = 0 then Some PdfEmpty else None))"

text \<open>The local variables of \<open>process_documents\<close>, the registry and the messages shown.\<close>

record batch =
  all_text_chunks :: "string list"
  processed_count :: nat
  registry :: "string \<rightharpoonup> metadata"
  shown :: "ui_message list"

text \<open>
  One round of the \<open>for i, uploaded_file in enumerate(uploaded_files)\<close> loop. \<open>now i\<close> is
  the clock reading formatted in round \<open>i\<close>.
\<close>

definition process_file ::
  "'v library \<Rightarrow> config \<Rightarrow> (nat \<Rightarrow> string) \<Rightarrow> nat \<Rightarrow> uploaded_file \<Rightarrow> batch \<Rightarrow> batch" where
  "process_file L cfg now i uploaded_file b =
     (case validate_pdf_file cfg uploaded_file of
        Some err \<Rightarrow> b\<lparr>shown := shown b @ [InvalidFile (name uploaded_file) err]\<rparr>
      | None \<Rightarrow>
          (case get_pdf_text [uploaded_file] of
             (text, msgs) \<Rightarrow>
               if strip text = [] then
                 b\<lparr>shown := shown b @ msgs @ [NoTextExtracted (name uploaded_file)]\<rparr>
               else
                 (case get_text_chunks L cfg text of
                    Inl e \<Rightarrow> b\<lparr>shown := shown b @ msgs @ [ErrorProcessing (name uploaded_file) e]\<rparr>
                  | Inr cs \<Rightarrow>
                      if cs = [] then
                        b\<lparr>shown := shown b @ msgs @ [NoValidChunks (name uploaded_file)]\<rparr>
                      else
                        (case reader uploaded_file of
                           Inl e \<Rightarrow>
                             b\<lparr>all_text_chunks := all_text_chunks b @ cs,
                               shown := shown b @ msgs @ [ErrorProcessing (name uploaded_file) e]\<rparr>
                         | Inr pdf_pages \<Rightarrow>
                             b\<lparr>all_text_chunks := all_text_chunks b @ cs,
                               processed_count := processed_count b + 1,
                               registry := (registry b)(name uploaded_file \<mapsto>
                                 \<lparr>pages = length pdf_pages, chunks = length cs,
                                  size_mb = round_mb (size_bytes uploaded_file), processed_time = now i\<rparr>),
                               shown := shown b @ msgs\<rparr>))))"

fun process_files ::
  "'v library \<Rightarrow> config \<Rightarrow> (nat \<Rightarrow> string) \<Rightarrow> nat \<Rightarrow> uploaded_file list \<Rightarrow> batch \<Rightarrow> batch" where
  "process_files L cfg now i [] b = b"
| "process_files L cfg now i (uploaded_file # rest) b =
     process_files L cfg now (i + 1) rest (process_file L cfg now i uploaded_file b)"

text \<open>The state of the locals when the loop of \<open>process_documents\<close> has ended.\<close>

definition run_batch ::
  "'v library \<Rightarrow> config \<Rightarrow> (nat \<Rightarrow> string) \<Rightarrow> uploaded_file list \<Rightarrow> 'v session_state \<Rightarrow> batch" where
  "run_batch L cfg now uploaded_files st =
     process_files L cfg now 0 uploaded_files
       \<lparr>all_text_chunks = [], processed_count = 0,
        registry = processed_documents st, shown = []\<rparr>"

text \<open>
  \<open>process_documents\<close> on the session state: the new state and the messages shown. The
  registry is written inside the loop, the index reference only after a successful build.
\<close>

definition process_documents ::
  "'v library \<Rightarrow> config \<Rightarrow> (nat \<Rightarrow> string) \<Rightarrow> uploaded_file list \<Rightarrow> 'v session_state
     \<Rightarrow> 'v session_state \<times> ui_message list" where
  "process_documents L cfg now uploaded_files st =
     (let b = run_batch L cfg now uploaded_files st;
          st1 = st\<lparr>processed_documents := registry b\<rparr>
      in if all_text_chunks b \<noteq> [] then
           (case get_vector_store L (all_text_chunks b) of
              (Some store, msgs) \<Rightarrow>
                (st1\<lparr>vector_store := Some store\<rparr>, shown b @ msgs @ [Success (processed_count b)])
            | (None, msgs) \<Rightarrow> (st1, shown b @ msgs @ [FailedVectorDatabase]))
         else (st1, shown b @ [NoDocumentsProcessed]))"

section \<open>The chunks of a batch, as the specification describes them\<close>

text \<open>
  The chunks of one document of a batch: a document that fails validation, yields no text
  or cannot be chunked has none; any other document has the chunks that the chunking step
  returns for its extracted text. A document is accepted when it has at least one chunk.
\<close>

definition chunks_of_file :: "'v library \<Rightarrow> config \<Rightarrow> uploaded_file \<Rightarrow> string list" where
  "chunks_of_file L cfg uploaded_file =
     (if validate_pdf_file cfg uploaded_file \<noteq> None then []
      else if strip (fst (get_pdf_text [uploaded_file])) = [] then []
      else (case get_text_chunks L cfg (fst (get_pdf_text [uploaded_file])) of
              Inl e \<Rightarrow> []
            | Inr cs \<Rightarrow> cs))"

text \<open>The registry entry that is written for an accepted document in round \<open>i\<close>.\<close>

definition entry_of_file ::
  "'v library \<Rightarrow> config \<Rightarrow> (nat \<Rightarrow> string) \<Rightarrow> nat \<Rightarrow> uploaded_file \<Rightarrow> metadata" where
  "entry_of_file L cfg now i uploaded_file =
     \<lparr>pages = (case reader uploaded_file of Inl e \<Rightarrow> 0 | Inr pdf_pages \<Rightarrow> length pdf_pages),
      chunks = length (chunks_of_file L cfg uploaded_file),
      size_mb = round_mb (size_bytes uploaded_file),
      processed_time = now i\<rparr>"

section \<open>Example inputs\<close>

text \<open>
  Stand-ins for the collaborators: a splitter that cuts at blank lines, an embedding that
  maps a text to its length, a search that returns the first \<open>k\<close> stored texts, and a
  chain with a fixed answer.
\<close>

definition demo_library :: "nat library" where
  "demo_library =
     \<lparr>text_splitter = (\<lambda>chunk_size chunk_overlap. Inr (\<lambda>text. Inr (split_str ''\<newline>\<newline>'' text))),
      embed_documents = (\<lambda>texts. Inr (map length texts)),
      save_local = (\<lambda>store. Inr ()),
      similarity_search = (\<lambda>store question k. Inr (take k (docstore store))),
      conversational_chain = Inr (\<lambda>docs question. Inr ''The sky is blue.'')\<rparr>"

text \<open>The same collaborators with a chain, or an embedding backend, that raises.\<close>

definition failing_chain_library :: "nat library" where
  "failing_chain_library =
     demo_library\<lparr>conversational_chain := Inr (\<lambda>docs question. Inl (Exception ''quota exceeded''))\<rparr>"

definition failing_embedding_library :: "nat library" where
  "failing_embedding_library =
     demo_library\<lparr>embed_documents := (\<lambda>texts. Inl (Exception ''quota exceeded''))\<rparr>"

text \<open>
  A splitter whose constructor refuses an overlap larger than the chunk size and accepts
  every other configuration.
\<close>

definition strict_library :: "nat library" where
  "strict_library =
     demo_library\<lparr>text_splitter := (\<lambda>chunk_size chunk_overlap.
        if chunk_overlap > chunk_size then Inl (Exception ''Got a larger chunk overlap than chunk size'')
        else Inr (\<lambda>text. Inr (split_str ''\<newline>\<newline>'' text)))\<rparr>"

definition demo_config :: config where
  "demo_config = \<lparr>MAX_FILE_SIZE_MB = 50, CHUNK_SIZE = 10000, CHUNK_OVERLAP = 1000\<rparr>"

definition equal_overlap_config :: config where
  "equal_overlap_config = \<lparr>MAX_FILE_SIZE_MB = 50, CHUNK_SIZE = 1000, CHUNK_OVERLAP = 1000\<rparr>"

definition large_overlap_config :: config where
  "large_overlap_config = \<lparr>MAX_FILE_SIZE_MB = 50, CHUNK_SIZE = 1000, CHUNK_OVERLAP = 2000\<rparr>"

text \<open>Page texts and files. \<open>long_text\<close> is long enough to pass the length filter.\<close>

definition long_text :: string where
  "long_text = replicate 120 CHR ''x''"

definition file_a :: uploaded_file where
  "file_a = \<lparr>name = ''a.pdf'', size_bytes = 2048, reader = Inr [Inr long_text]\<rparr>"

definition file_a2 :: uploaded_file where
  "file_a2 = \<lparr>name = ''a.pdf'', size_bytes = 4096, reader = Inr [Inr long_text, Inr long_text]\<rparr>"

text \<open>A file of one page under another name, of 131072 bytes (an eighth of a megabyte).\<close>

definition file_d :: uploaded_file where
  "file_d = \<lparr>name = ''d.pdf'', size_bytes = 131072, reader = Inr [Inr long_text]\<rparr>"

text \<open>A file whose only page has no text, and a file whose second page cannot be decoded.\<close>

definition file_blank :: uploaded_file where
  "file_blank = \<lparr>name = ''blank.pdf'', size_bytes = 1024, reader = Inr [Inr '' '']\<rparr>"

definition file_b :: uploaded_file where
  "file_b = \<lparr>name = ''b.pdf'', size_bytes = 2048,
             reader = Inr [Inr ''Alpha'', Inl (Exception ''cannot decode''), Inr ''Gamma'']\<rparr>"

text \<open>
  A file of two pages, and a piece of its extracted text that begins inside the text of
  page 1 and runs over the header of page 2.
\<close>

definition file_c :: uploaded_file where
  "file_c = \<lparr>name = ''c.pdf'', size_bytes = 2048,
             reader = Inr [Inr ''Alpha\<newline>Beta'', Inr ''Gamma'']\<rparr>"

definition chunk_across_pages :: string where
  "chunk_across_pages = ''Beta'' @ page_marker 1 ''c.pdf'' @ ''Gamma''"

text \<open>Chunks as they are stored: two with a page header, one with none that parses.\<close>

definition chunk_a :: string where
  "chunk_a = ''--- Page 1 of a.pdf ---\<newline>'' @ long_text"

definition chunk_page_1 :: string where
  "chunk_page_1 = ''--- Page 1 of a.pdf ---\<newline>The sky is blue.''"

definition chunk_page_2 :: string where
  "chunk_page_2 = ''--- Page 2 of a.pdf ---\<newline>The sea is green.''"

definition chunk_plain :: string where
  "chunk_plain = ''Shipping of goods\<newline>--- Pages of notes''"

text \<open>Session states: nothing processed yet, and an index over given texts.\<close>

definition empty_state :: "nat session_state" where
  "empty_state = \<lparr>processed_documents = Map.empty, vector_store = None\<rparr>"

definition state_of :: "string list \<Rightarrow> nat session_state" where
  "state_of texts =
     \<lparr>processed_documents = Map.empty,
      vector_store = Some \<lparr>docstore = texts, index = map length texts\<rparr>\<rparr>"

definition state_a :: "nat session_state" where
  "state_a = state_of [chunk_page_1]"

text \<open>A session in which \<open>old.pdf\<close> and an earlier \<open>a.pdf\<close> were processed before.\<close>

definition earlier_state :: "nat session_state" where
  "earlier_state =
     \<lparr>processed_documents =
        [''old.pdf'' \<mapsto> \<lparr>pages = 3, chunks = 1, size_mb = 12,
                        processed_time = ''2023-12-31 23:59:59''\<rparr>,
         ''a.pdf'' \<mapsto> \<lparr>pages = 7, chunks = 1, size_mb = 40,
                      processed_time = ''2023-12-31 23:59:59''\<rparr>],
      vector_store = Some \<lparr>docstore = [chunk_page_2], index = [41]\<rparr>\<rparr>"

definition clock :: "nat \<Rightarrow> string" where
  "clock i = ''2024-01-01 00:00:0'' @ str_nat i"

section \<open>Facts about the string operations\<close>

lemma split_str_nonempty: "split_str sep s \<noteq> []"
  by (induction sep s rule: split_str.induct) (auto split: list.splits)

lemma split_str_length_contains:
  "sep \<noteq> [] \<Longrightarrow> (length (split_str sep s) > 1) = contains sep s"
proof (induction sep s rule: split_str.induct)
  case (1 sep)
  then show ?case by simp
next
  case (2 sep c cs)
  show ?case
  proof (cases "prefix sep (c # cs)")
    case True
    with 2 show ?thesis
      using split_str_nonempty [of sep "drop (length sep - 1) cs"] by (auto simp: Suc_lessI)
  next
    case False
    with 2 show ?thesis
      using split_str_nonempty [of sep cs] by (auto split: list.splits)
  qed
qed

lemma split_str_skip:
  assumes "sep \<noteq> []" and "\<forall>x \<in> set a. x \<noteq> hd sep"
  shows "split_str sep (a @ s) = (a @ hd (split_str sep s)) # tl (split_str sep s)"
  using assms(2)
proof (induction a)
  case Nil
  then show ?case by (simp add: split_str_nonempty)
next
  case (Cons x a)
  then have "\<not> prefix sep (x # a @ s)"
    using assms(1) by (cases sep) auto
  then show ?case
    using Cons by simp
qed

lemma split_str_at_sep: "sep \<noteq> [] \<Longrightarrow> split_str sep (sep @ s) = [] # split_str sep s"
  by (cases sep) simp_all

lemma split_str_single_char:
  "split_str [c] (a @ c # b) = split_str [c] a @ split_str [c] b"
proof (induction a)
  case Nil
  then show ?case by simp
next
  case (Cons x a)
  then show ?case
    using split_str_nonempty [of "[c]" a] by (cases "split_str [c] a") auto
qed

lemma contains_sandwich: "contains sub (a @ sub @ b)"
proof (induction a)
  case Nil
  show ?case
  proof (cases "sub @ b")
    case Nil
    then show ?thesis by simp
  next
    case (Cons c cs)
    have "prefix sub (sub @ b)" by simp
    then have "prefix sub (c # cs)" by (simp only: Cons)
    then show ?thesis by (simp add: Cons)
  qed
next
  case (Cons x a)
  then show ?case by simp
qed

lemma dropWhile_keeps: "xs \<noteq> [] \<Longrightarrow> \<not> P (hd xs) \<Longrightarrow> dropWhile P xs = xs"
  by (cases xs) auto

lemma digit_char_digit: "d < 10 \<Longrightarrow> digit_char d \<in> set ''0123456789''"
  unfolding digit_char_def by (rule nth_mem) simp

lemma str_nat_digits: "str_nat n \<noteq> [] \<and> set (str_nat n) \<subseteq> set ''0123456789''"
proof (induction n rule: str_nat.induct)
  case (1 n)
  show ?case
  proof (cases "n < 10")
    case True
    then show ?thesis
      using digit_char_digit [of n] by (subst (1 2) str_nat.simps) simp
  next
    case False
    then show ?thesis
      using "1.IH" digit_char_digit [of "n mod 10"] by (subst (1 2) str_nat.simps) simp
  qed
qed

lemma strip_digits:
  assumes "ds \<noteq> []" and "set ds \<subseteq> set ''0123456789''"
  shows "strip ds = ds"
proof -
  have nospace: "\<not> isspace c" if "c \<in> set ds" for c
    using that assms(2) by (auto simp: isspace_def)
  have "\<not> isspace (hd ds)" "\<not> isspace (last ds)"
    using assms(1) nospace by simp_all
  then have "dropWhile isspace ds = ds" "dropWhile isspace (rev ds) = rev ds"
    using assms(1) by (simp_all add: dropWhile_keeps hd_rev)
  then show ?thesis by (simp add: strip_def)
qed

lemma strip_long_text: "strip long_text = long_text"
  unfolding long_text_def strip_def by (simp add: isspace_def)

section \<open>Parsing a page header\<close>

lemma parse_marker_line_no_of:
  "\<not> contains '' of '' line \<Longrightarrow> parse_marker_line line = Inr None"
  using split_str_length_contains [of "'' of ''" line]
  by (simp add: parse_marker_line_def Let_def)

lemma parse_marker_line_malformed:
  assumes "\<not> contains ''--- Page '' (hd (split_str '' of '' line))"
  shows "parse_marker_line line \<noteq> Inr (Some src)"
proof -
  have "hd (split_str '' of '' line) = split_str '' of '' line ! 0"
    by (simp add: hd_conv_nth split_str_nonempty)
  then have "\<not> 1 < length (split_str ''--- Page '' (split_str '' of '' line ! 0))"
    using assms split_str_length_contains [of "''--- Page ''" "split_str '' of '' line ! 0"]
    by simp
  then show ?thesis
    by (simp add: parse_marker_line_def Let_def)
qed

lemma source_of_lines_none:
  assumes "\<forall>line \<in> set ls. \<not> (contains ''--- Page'' line \<and> contains '' of '' line) \<or>
             \<not> contains ''--- Page '' (hd (split_str '' of '' line))"
  shows "source_of_lines ls = None"
  using assms
proof (induction ls)
  case Nil
  then show ?case by simp
next
  case (Cons line ls)
  then have rest: "source_of_lines ls = None" by simp
  from Cons.prems have
    "\<not> contains ''--- Page'' line \<or> \<not> contains '' of '' line \<or>
     \<not> contains ''--- Page '' (hd (split_str '' of '' line))"
    by auto
  then consider (a) "\<not> contains ''--- Page'' line" | (b) "\<not> contains '' of '' line"
    | (c) "\<not> contains ''--- Page '' (hd (split_str '' of '' line))" by blast
  then show ?case
  proof cases
    case a
    then show ?thesis using rest by simp
  next
    case b
    then show ?thesis using rest parse_marker_line_no_of [OF b] by simp
  next
    case c
    then show ?thesis using rest parse_marker_line_malformed [OF c]
      by (auto split: sum.splits option.splits)
  qed
qed

lemma split_of_marker:
  assumes "ds \<noteq> []" and "set ds \<subseteq> set ''0123456789''"
  shows "split_str '' of '' (''--- Page '' @ ds @ '' of '' @ r) =
           (''--- Page '' @ ds) # split_str '' of '' r"
proof -
  have nosp: "\<forall>x \<in> set ds. x \<noteq> hd '' of ''"
    using assms(2) by auto
  have "split_str '' of '' (ds @ '' of '' @ r) =
      (ds @ hd (split_str '' of '' ('' of '' @ r))) # tl (split_str '' of '' ('' of '' @ r))"
    by (rule split_str_skip [OF _ nosp]) simp
  moreover have "split_str '' of '' ('' of '' @ r) = [] # split_str '' of '' r"
    by (rule split_str_at_sep) simp
  ultimately have A: "split_str '' of '' (ds @ '' of '' @ r) = ds # split_str '' of '' r"
    by simp
  obtain d ds' where ds: "ds = d # ds'"
    using assms(1) by (cases ds) auto
  then have "d \<noteq> CHR ''o''"
    using assms(2) by auto
  then have B: "\<not> prefix ''of '' (ds @ '' of '' @ r)"
    by (simp add: ds)
  show ?thesis
    using A B by simp
qed

lemma split_page_marker:
  assumes "set ds \<subseteq> set ''0123456789''"
  shows "split_str ''--- Page '' (''--- Page '' @ ds) = [[], ds]"
proof -
  have nodash: "\<forall>x \<in> set ds. x \<noteq> hd ''--- Page ''"
    using assms by auto
  have "split_str ''--- Page '' (ds @ []) =
      (ds @ hd (split_str ''--- Page '' [])) # tl (split_str ''--- Page '' [])"
    by (rule split_str_skip [OF _ nodash]) simp
  then have "split_str ''--- Page '' ds = [ds]"
    by simp
  moreover have "split_str ''--- Page '' (''--- Page '' @ ds) = [] # split_str ''--- Page '' ds"
    by (rule split_str_at_sep) simp
  ultimately show ?thesis by simp
qed

lemma parse_marker_line_page:
  assumes "ds \<noteq> []" and "set ds \<subseteq> set ''0123456789''"
  shows "\<exists>src. parse_marker_line (''--- Page '' @ ds @ '' of '' @ r) = Inr (Some src) \<and> page src = ds"
proof -
  let ?line = "''--- Page '' @ ds @ '' of '' @ r"
  have parts: "split_str '' of '' ?line = (''--- Page '' @ ds) # split_str '' of '' r"
    by (rule split_of_marker [OF assms])
  have more: "1 < length (split_str '' of '' ?line)"
    using split_str_nonempty [of "'' of ''" r] by (simp only: parts) (cases "split_str '' of '' r"; simp)
  have first: "split_str '' of '' ?line ! 0 = ''--- Page '' @ ds"
    by (simp only: parts nth_Cons_0)
  have pieces: "split_str ''--- Page '' (split_str '' of '' ?line ! 0) = [[], ds]"
    by (simp only: first split_page_marker [OF assms(2)])
  have "parse_marker_line ?line =
      Inr (Some \<lparr>document = strip (replace_str '' ---'' [] (split_str '' of '' ?line ! 1)),
                 page = strip ds\<rparr>)"
    unfolding parse_marker_line_def Let_def using more by (simp only: pieces) simp
  then show ?thesis
    by (simp add: strip_digits [OF assms])
qed

lemma source_of_marker_line:
  assumes "ds \<noteq> []" and "set ds \<subseteq> set ''0123456789''"
  shows "\<exists>src. source_of_lines ((''--- Page '' @ ds @ '' of '' @ r) # ls) = Some src \<and> page src = ds"
proof -
  let ?line = "''--- Page '' @ ds @ '' of '' @ r"
  obtain src where src: "parse_marker_line ?line = Inr (Some src)" "page src = ds"
    using parse_marker_line_page [OF assms, of r] by blast
  have c1: "contains ''--- Page'' ?line"
    using contains_sandwich [of "''--- Page''" "[]" "'' '' @ ds @ '' of '' @ r"] by simp
  have c2: "contains ''of'' ?line"
    using contains_sandwich [of "''of''" "''--- Page '' @ ds @ '' ''" "'' '' @ r"] by simp
  have "source_of_lines (?line # ls) = Some src"
    using c1 c2 src(1) by (simp only: source_of_lines.simps) simp
  then show ?thesis using src(2) by blast
qed

lemma source_of_lines_skip:
  "\<forall>line \<in> set ls. \<not> contains ''--- Page'' line \<Longrightarrow>
     source_of_lines (ls @ ls') = source_of_lines ls'"
  by (induction ls) simp_all

lemma lines_of_marker:
  assumes "ds \<noteq> []" and "set ds \<subseteq> set ''0123456789''"
  shows "\<exists>r ls. split_str ''\<newline>'' (''--- Page '' @ ds @ '' of '' @ rest) =
           (''--- Page '' @ ds @ '' of '' @ r) # ls"
proof -
  let ?m = "''--- Page '' @ ds @ '' of ''"
  have nonl: "\<forall>x \<in> set ?m. x \<noteq> hd ''\<newline>''"
    using assms(2) by auto
  have "split_str ''\<newline>'' (?m @ rest) =
      (?m @ hd (split_str ''\<newline>'' rest)) # tl (split_str ''\<newline>'' rest)"
    by (rule split_str_skip [OF _ nonl]) simp
  then have "split_str ''\<newline>'' (''--- Page '' @ ds @ '' of '' @ rest) =
      (''--- Page '' @ ds @ '' of '' @ hd (split_str ''\<newline>'' rest)) # tl (split_str ''\<newline>'' rest)"
    by simp
  then show ?thesis by blast
qed

lemma source_after_lines:
  assumes "\<forall>line \<in> set ls. \<not> contains ''--- Page'' line"
  shows "\<exists>src. source_of_lines (ls @ split_str ''\<newline>'' (''--- Page '' @ str_nat n @ '' of '' @ rest))
            = Some src \<and> page src = str_nat n"
proof -
  have ds: "str_nat n \<noteq> []" "set (str_nat n) \<subseteq> set ''0123456789''"
    using str_nat_digits [of n] by simp_all
  obtain r tail where lines: "split_str ''\<newline>'' (''--- Page '' @ str_nat n @ '' of '' @ rest) =
      (''--- Page '' @ str_nat n @ '' of '' @ r) # tail"
    using lines_of_marker [OF ds, of rest] by blast
  obtain src where "source_of_lines ((''--- Page '' @ str_nat n @ '' of '' @ r) # tail) = Some src"
    and "page src = str_nat n"
    using source_of_marker_line [OF ds, of r tail] by blast
  then show ?thesis
    using source_of_lines_skip [OF assms] by (simp only: lines) blast
qed

lemma source_chunk_page_1:
  "extract_source_info chunk_page_1 = Some \<lparr>document = ''a.pdf'', page = ''1''\<rparr>"
  by (simp add: chunk_page_1_def extract_source_info_def parse_marker_line_def strip_def isspace_def)

lemma source_chunk_page_2:
  "extract_source_info chunk_page_2 = Some \<lparr>document = ''a.pdf'', page = ''2''\<rparr>"
  by (simp add: chunk_page_2_def extract_source_info_def parse_marker_line_def strip_def isspace_def)

section \<open>Facts about the loops\<close>

lemma collect_sources_acc:
  "collect_sources docs srcs = srcs @ map the (filter (\<lambda>x. x \<noteq> None) (map extract_source_info docs))"
  by (induction docs arbitrary: srcs) (auto split: option.splits)

lemma length_collect_sources:
  "length (collect_sources docs srcs) =
     length srcs + length (filter (\<lambda>doc. extract_source_info doc \<noteq> None) docs)"
  by (induction docs arbitrary: srcs) (auto split: option.splits)

lemma extract_pages_acc:
  "extract_pages nm i ps (text @ extra) =
     (text @ fst (extract_pages nm i ps extra), snd (extract_pages nm i ps extra))"
proof (induction ps arbitrary: i extra)
  case Nil
  then show ?case by simp
next
  case (Cons p ps)
  show ?case
  proof (cases p)
    case (Inl e)
    then show ?thesis by simp
  next
    case (Inr page_text)
    show ?thesis
      using Cons.IH [of "i + 1" "extra @ page_marker i nm @ page_text"] Cons.IH [of "i + 1" extra]
      by (simp add: Inr)
  qed
qed

lemma pdf_text_loop_acc:
  "pdf_text_loop ds (text @ extra) (ui @ extra_ui) =
     (text @ fst (pdf_text_loop ds extra extra_ui), ui @ snd (pdf_text_loop ds extra extra_ui))"
proof (induction ds arbitrary: extra extra_ui)
  case Nil
  then show ?case by simp
next
  case (Cons d ds)
  show ?case
  proof (cases "reader d")
    case (Inl e)
    then show ?thesis
      using Cons.IH [of extra "extra_ui @ [ErrorReading (name d) e]"] by simp
  next
    case (Inr ps)
    obtain got failure where ex: "extract_pages (name d) 0 ps extra = (got, failure)"
      by (cases "extract_pages (name d) 0 ps extra")
    then have ex2: "extract_pages (name d) 0 ps (text @ extra) = (text @ got, failure)"
      using extract_pages_acc [of "name d" 0 ps "text" extra] by simp
    show ?thesis
    proof (cases failure)
      case None
      then show ?thesis
        using Cons.IH [of got extra_ui] Inr ex ex2 by simp
    next
      case (Some e)
      then show ?thesis
        using Cons.IH [of got "extra_ui @ [ErrorReading (name d) e]"] Inr ex ex2 by simp
    qed
  qed
qed

lemma extract_pages_until_failure:
  assumes "\<forall>p \<in> set before. \<exists>page_text. p = Inr page_text"
  shows "extract_pages nm i (before @ Inl e # after) text =
           (fst (extract_pages nm i before text), Some e) \<and>
         snd (extract_pages nm i before text) = None"
  using assms
proof (induction before arbitrary: i "text")
  case Nil
  then show ?case by simp
next
  case (Cons p before)
  then obtain page_text where p: "p = Inr page_text" by auto
  from Cons.prems have "\<forall>p \<in> set before. \<exists>page_text. p = Inr page_text" by simp
  from Cons.IH [OF this] show ?case by (simp add: p)
qed

lemma process_file_chunks:
  "all_text_chunks (process_file L cfg now i f b) = all_text_chunks b @ chunks_of_file L cfg f"
  by (cases "get_pdf_text [f]")
     (auto simp: process_file_def chunks_of_file_def split: option.splits sum.splits)

lemma process_files_chunks:
  "all_text_chunks (process_files L cfg now i fs b) =
     all_text_chunks b @ concat (map (chunks_of_file L cfg) fs)"
  by (induction fs arbitrary: i b) (simp_all add: process_file_chunks)

lemma process_file_registry:
  "chunks_of_file L cfg f = [] \<or> name f \<noteq> nm \<Longrightarrow>
     registry (process_file L cfg now i f b) nm = registry b nm"
  by (cases "get_pdf_text [f]")
     (auto simp: process_file_def chunks_of_file_def validate_pdf_file_def
           split: option.splits sum.splits if_splits)

lemma process_files_registry:
  "\<forall>f \<in> set fs. chunks_of_file L cfg f = [] \<or> name f \<noteq> nm \<Longrightarrow>
     registry (process_files L cfg now i fs b) nm = registry b nm"
  by (induction fs arbitrary: i b) (simp_all add: process_file_registry)

lemma process_file_entry:
  "chunks_of_file L cfg f \<noteq> [] \<Longrightarrow>
     registry (process_file L cfg now i f b) (name f) = Some (entry_of_file L cfg now i f)"
  by (cases "get_pdf_text [f]")
     (auto simp: process_file_def chunks_of_file_def entry_of_file_def validate_pdf_file_def
           split: option.splits sum.splits if_splits)

lemma process_files_append:
  "process_files L cfg now i (fs @ gs) b =
     process_files L cfg now (i + length fs) gs (process_files L cfg now i fs b)"
  by (induction fs arbitrary: i b) simp_all

lemma process_files_entry:
  assumes "chunks_of_file L cfg f \<noteq> []"
    and "\<forall>g \<in> set later. chunks_of_file L cfg g = [] \<or> name g \<noteq> name f"
  shows "registry (process_files L cfg now i (before @ f # later) b) (name f) =
           Some (entry_of_file L cfg now (i + length before) f)"
proof -
  let ?b1 = "process_files L cfg now i before b"
  have "process_files L cfg now i (before @ f # later) b =
      process_files L cfg now (i + length before + 1) later
        (process_file L cfg now (i + length before) f ?b1)"
    by (simp add: process_files_append)
  then show ?thesis
    using process_files_registry [OF assms(2)] process_file_entry [OF assms(1)] by simp
qed

lemma process_file_rejected:
  assumes "text_splitter L (CHUNK_SIZE cfg) (CHUNK_OVERLAP cfg) = Inl e"
  shows "\<exists>msgs. process_file L cfg now i f b = b\<lparr>shown := shown b @ msgs\<rparr> \<and>
           (validate_pdf_file cfg f = None \<and> strip (fst (get_pdf_text [f])) \<noteq> []
              \<longrightarrow> ErrorProcessing (name f) e \<in> set msgs)"
proof -
  have fails: "get_text_chunks L cfg t = Inl e" for t
    using assms by (simp add: get_text_chunks_def)
  show ?thesis
    by (cases "validate_pdf_file cfg f"; cases "get_pdf_text [f]")
       (auto simp: process_file_def fails)
qed

lemma process_files_rejected:
  assumes "text_splitter L (CHUNK_SIZE cfg) (CHUNK_OVERLAP cfg) = Inl e"
  shows "\<exists>msgs. process_files L cfg now i fs b = b\<lparr>shown := shown b @ msgs\<rparr> \<and>
           (\<forall>f \<in> set fs. validate_pdf_file cfg f = None \<and> strip (fst (get_pdf_text [f])) \<noteq> []
              \<longrightarrow> ErrorProcessing (name f) e \<in> set msgs)"
proof (induction fs arbitrary: i b)
  case Nil
  have "process_files L cfg now i [] b = b\<lparr>shown := shown b @ []\<rparr>" by simp
  then show ?case by (intro exI [of _ "[]"]) simp
next
  case (Cons f fs)
  obtain m1 where m1: "process_file L cfg now i f b = b\<lparr>shown := shown b @ m1\<rparr>"
    and e1: "validate_pdf_file cfg f = None \<and> strip (fst (get_pdf_text [f])) \<noteq> []
              \<longrightarrow> ErrorProcessing (name f) e \<in> set m1"
    using process_file_rejected [OF assms, of now i f b] by blast
  obtain m2 where m2: "process_files L cfg now (i + 1) fs (b\<lparr>shown := shown b @ m1\<rparr>) =
        (b\<lparr>shown := shown b @ m1\<rparr>)\<lparr>shown := shown (b\<lparr>shown := shown b @ m1\<rparr>) @ m2\<rparr>"
    and e2: "\<forall>f \<in> set fs. validate_pdf_file cfg f = None \<and> strip (fst (get_pdf_text [f])) \<noteq> []
              \<longrightarrow> ErrorProcessing (name f) e \<in> set m2"
    using Cons.IH [of "i + 1" "b\<lparr>shown := shown b @ m1\<rparr>"] by blast
  have "process_files L cfg now i (f # fs) b = b\<lparr>shown := shown b @ (m1 @ m2)\<rparr>"
    using m1 m2 by simp
  moreover have "\<forall>g \<in> set (f # fs). validate_pdf_file cfg g = None \<and> strip (fst (get_pdf_text [g])) \<noteq> []
              \<longrightarrow> ErrorProcessing (name g) e \<in> set (m1 @ m2)"
    using e1 e2 by auto
  ultimately show ?case by blast
qed

lemma chunks_of_file_a: "chunks_of_file demo_library demo_config file_a = [chunk_a]"
  unfolding chunk_a_def by code_simp

section \<open>Chunks kept by the chunking step\<close>

text \<open>
  Claim C1. Whenever \<open>get_text_chunks\<close> returns, every chunk it returns has at least 100
  characters after trimming, and a piece of the splitter's output with fewer than 100
  trimmed characters is not among the chunks returned.
\<close>

theorem get_text_chunks_minimum_length:
  assumes "get_text_chunks L cfg text = Inr result"
  shows "(\<forall>chunk \<in> set result. 100 \<le> length (strip chunk)) \<and>
         (\<forall>split_text pieces chunk.
            text_splitter L (CHUNK_SIZE cfg) (CHUNK_OVERLAP cfg) = Inr split_text \<and>
            split_text text = Inr pieces \<and> chunk \<in> set pieces \<and> length (strip chunk) < 100
            \<longrightarrow> chunk \<notin> set result)"
  using assms by (auto simp: get_text_chunks_def split: sum.splits)

lemma demo_split:
  "split_str ''\<newline>\<newline>'' (long_text @ ''\<newline>\<newline>page 7'') = [long_text, ''page 7'']"
  unfolding long_text_def by code_simp

lemma demo_chunks:
  "get_text_chunks demo_library demo_config (long_text @ ''\<newline>\<newline>page 7'') = Inr [long_text]"
  by (simp add: get_text_chunks_def demo_library_def demo_split strip_long_text)
     (simp add: long_text_def strip_def isspace_def)

theorem get_text_chunks_minimum_length_witness:
  "get_text_chunks demo_library demo_config (long_text @ ''\<newline>\<newline>page 7'') = Inr [long_text] \<and>
   100 \<le> length (strip long_text) \<and> ''page 7'' \<notin> set [long_text]"
proof -
  have "length ''page 7'' \<noteq> length long_text"
    by (simp add: long_text_def)
  then have "''page 7'' \<noteq> long_text"
    by (rule contrapos_nn) (rule arg_cong)
  then have "''page 7'' \<notin> set [long_text]"
    by simp
  then show ?thesis
    using get_text_chunks_minimum_length [OF demo_chunks] demo_chunks by simp
qed

section \<open>The page a citation carries\<close>

text \<open>
  Claim C2, as the code has it. The citation of a chunk carries the page of the first page
  header in the chunk's text. A chunk that begins with the header of a page is cited with
  that page, whatever follows; a chunk that begins with text in which no line contains
  \<open>--- Page\<close> and then runs over the header of a page is cited with the page of that
  header, which is the page after the boundary and not the page the chunk starts on.
\<close>

theorem citation_page_is_first_marker_in_chunk:
  "(\<exists>src. extract_source_info (drop 2 (page_marker page_num nm) @ body) = Some src \<and>
           page src = str_nat (page_num + 1)) \<and>
   ((\<forall>line \<in> set (split_str ''\<newline>'' pre). \<not> contains ''--- Page'' line) \<longrightarrow>
    (\<exists>src. extract_source_info (pre @ page_marker page_num nm @ body) = Some src \<and>
           page src = str_nat (page_num + 1)))"
proof
  let ?rest = "nm @ '' ---\<newline>'' @ body"
  let ?m = "''--- Page '' @ str_nat (page_num + 1) @ '' of '' @ ?rest"
  have "\<forall>line \<in> set ([] :: string list). \<not> contains ''--- Page'' line" by simp
  from source_after_lines [OF this, of "page_num + 1" ?rest]
  show "\<exists>src. extract_source_info (drop 2 (page_marker page_num nm) @ body) = Some src \<and>
           page src = str_nat (page_num + 1)"
    by (simp add: extract_source_info_def page_marker_def)
  show "(\<forall>line \<in> set (split_str ''\<newline>'' pre). \<not> contains ''--- Page'' line) \<longrightarrow>
    (\<exists>src. extract_source_info (pre @ page_marker page_num nm @ body) = Some src \<and>
           page src = str_nat (page_num + 1))"
  proof
    assume pre: "\<forall>line \<in> set (split_str ''\<newline>'' pre). \<not> contains ''--- Page'' line"
    have "split_str ''\<newline>'' (pre @ CHR ''\<newline>'' # (CHR ''\<newline>'' # ?m)) =
        split_str ''\<newline>'' pre @ split_str ''\<newline>'' (CHR ''\<newline>'' # ?m)"
      by (rule split_str_single_char)
    moreover have "split_str ''\<newline>'' ([] @ CHR ''\<newline>'' # ?m) =
        split_str ''\<newline>'' [] @ split_str ''\<newline>'' ?m"
      by (rule split_str_single_char)
    ultimately have lines: "split_str ''\<newline>'' (pre @ page_marker page_num nm @ body) =
        (split_str ''\<newline>'' pre @ [[]]) @ split_str ''\<newline>'' ?m"
      by (simp add: page_marker_def)
    have "\<forall>line \<in> set (split_str ''\<newline>'' pre @ [[]]). \<not> contains ''--- Page'' line"
      using pre by simp
    from source_after_lines [OF this, of "page_num + 1" ?rest]
    show "\<exists>src. extract_source_info (pre @ page_marker page_num nm @ body) = Some src \<and>
           page src = str_nat (page_num + 1)"
      unfolding extract_source_info_def by (simp only: lines)
  qed
qed

lemma beta_lines: "\<forall>line \<in> set (split_str ''\<newline>'' ''Beta''). \<not> contains ''--- Page'' line"
  by simp

theorem citation_page_is_first_marker_in_chunk_witness:
  "\<exists>src. extract_source_info chunk_across_pages = Some src \<and> page src = ''2''"
proof -
  have two: "str_nat (1 + 1) = ''2''"
    by code_simp
  from citation_page_is_first_marker_in_chunk [of 1 "''c.pdf''" "''Gamma''" "''Beta''"] beta_lines
  have "\<exists>src. extract_source_info (''Beta'' @ page_marker 1 ''c.pdf'' @ ''Gamma'') = Some src \<and>
           page src = str_nat (1 + 1)"
    by blast
  then show ?thesis
    unfolding chunk_across_pages_def by (simp only: two)
qed

text \<open>
  The extracted text of \<open>file_c\<close> ends with \<open>chunk_across_pages\<close>, which starts inside the
  text of page 1; its citation names page 2.
\<close>

theorem chunk_cited_with_later_page_counterexample:
  "fst (get_pdf_text [file_c]) = (page_marker 0 ''c.pdf'' @ ''Alpha\<newline>'') @ chunk_across_pages \<and>
   extract_source_info chunk_across_pages = Some \<lparr>document = ''c.pdf'', page = ''2''\<rparr>"
  unfolding chunk_across_pages_def by code_simp

section \<open>Questions with nothing to answer from\<close>

text \<open>
  Claim C3. When no index has been built, or the search returns no document, the answer
  says so (documents must be uploaded first, or no relevant information was found), the
  list of sources is empty and the generation chain is not called.
\<close>

theorem process_question_nothing_retrieved:
  assumes "vector_store st = None \<or>
           (\<exists>store. vector_store st = Some store \<and> similarity_search L store question 5 = Inr [])"
  shows "process_question L st question =
           (\<lparr>answer = (if vector_store st = None
                        then ''Please upload and process documents first.''
                        else ''No relevant information found in the documents.''),
             sources = []\<rparr>, [])"
  using assms by (auto simp: process_question_def)

theorem process_question_nothing_retrieved_witness:
  "process_question demo_library empty_state ''What color is the sky?'' =
     (\<lparr>answer = ''Please upload and process documents first.'', sources = []\<rparr>, []) \<and>
   process_question demo_library (state_of []) ''What color is the sky?'' =
     (\<lparr>answer = ''No relevant information found in the documents.'', sources = []\<rparr>, [])"
proof -
  have none: "vector_store empty_state = None"
    by (simp add: empty_state_def)
  have some: "vector_store (state_of []) = Some \<lparr>docstore = [], index = []\<rparr> \<and>
      similarity_search demo_library \<lparr>docstore = [], index = []\<rparr> ''What color is the sky?'' 5 = Inr []"
    by (simp add: state_of_def demo_library_def)
  show ?thesis
    using process_question_nothing_retrieved [of empty_state demo_library "''What color is the sky?''"]
      process_question_nothing_retrieved [of "state_of []" demo_library "''What color is the sky?''"]
      none some
    by simp
qed

section \<open>A failed index build\<close>

text \<open>
  Claim C4. When the embedding backend raises on the chunks of a batch, the index reference
  of the session is the one from before the call, and every question is answered from it
  exactly as before the call.
\<close>

theorem failed_index_build_keeps_previous_index:
  assumes "embed_documents L (all_text_chunks (run_batch L cfg now uploaded_files st)) = Inl e"
  shows "vector_store (fst (process_documents L cfg now uploaded_files st)) = vector_store st \<and>
         process_question L' (fst (process_documents L cfg now uploaded_files st)) question =
           process_question L' st question"
proof -
  have "get_vector_store L (all_text_chunks (run_batch L cfg now uploaded_files st)) =
          (None, [ErrorCreatingVectorStore e])"
    using assms by (simp add: get_vector_store_def FAISS_from_texts_def)
  then have "vector_store (fst (process_documents L cfg now uploaded_files st)) = vector_store st"
    by (simp add: process_documents_def Let_def)
  then show ?thesis
    by (simp add: process_question_def)
qed

lemma batch_file_a:
  "all_text_chunks (run_batch failing_embedding_library demo_config clock [file_a] state_a) =
     [''--- Page 1 of a.pdf ---\<newline>'' @ long_text]"
  by code_simp

theorem failed_index_build_keeps_previous_index_witness:
  "vector_store (fst (process_documents failing_embedding_library demo_config clock [file_a] state_a)) =
     Some \<lparr>docstore = [chunk_page_1], index = [40]\<rparr> \<and>
   process_question demo_library
       (fst (process_documents failing_embedding_library demo_config clock [file_a] state_a))
       ''What color is the sky?'' =
     (\<lparr>answer = ''The sky is blue.'', sources = [\<lparr>document = ''a.pdf'', page = ''1''\<rparr>]\<rparr>,
      [([chunk_page_1], ''What color is the sky?'')])"
proof -
  have fails: "embed_documents failing_embedding_library
      (all_text_chunks (run_batch failing_embedding_library demo_config clock [file_a] state_a)) =
      Inl (Exception ''quota exceeded'')"
    by (simp add: failing_embedding_library_def)
  have before: "vector_store state_a = Some \<lparr>docstore = [chunk_page_1], index = [40]\<rparr>"
    by (simp add: state_a_def state_of_def chunk_page_1_def)
  have asked: "process_question demo_library state_a ''What color is the sky?'' =
     (\<lparr>answer = ''The sky is blue.'', sources = [\<lparr>document = ''a.pdf'', page = ''1''\<rparr>]\<rparr>,
      [([chunk_page_1], ''What color is the sky?'')])"
    by (simp add: process_question_def state_a_def state_of_def demo_library_def source_chunk_page_1)
  show ?thesis
    using failed_index_build_keeps_previous_index [OF fails, of demo_library "''What color is the sky?''"]
      before asked
    by simp
qed

section \<open>A chunk configuration the splitter refuses\<close>

text \<open>
  Claim C5, as the code has it. \<open>get_text_chunks\<close> checks nothing itself: it fails only
  with an error raised by the splitter, by its constructor or by \<open>split_text\<close>. When the
  constructor refuses the configuration, \<open>process_documents\<close> raises nothing: the error
  comes up once for each valid document with text, after that document was extracted, and
  is shown as a message; the session state is unchanged and the last message says that
  no document was processed.
\<close>

theorem rejected_configuration_fails_each_document:
  "(get_text_chunks L cfg txt = Inl e' \<longrightarrow>
      text_splitter L (CHUNK_SIZE cfg) (CHUNK_OVERLAP cfg) = Inl e' \<or>
      (\<exists>split_text. text_splitter L (CHUNK_SIZE cfg) (CHUNK_OVERLAP cfg) = Inr split_text \<and>
                     split_text txt = Inl e')) \<and>
   (text_splitter L (CHUNK_SIZE cfg) (CHUNK_OVERLAP cfg) = Inl e \<longrightarrow>
      fst (process_documents L cfg now uploaded_files st) = st \<and>
      (\<exists>msgs. snd (process_documents L cfg now uploaded_files st) = msgs @ [NoDocumentsProcessed] \<and>
         (\<forall>f \<in> set uploaded_files.
            validate_pdf_file cfg f = None \<and> strip (fst (get_pdf_text [f])) \<noteq> []
            \<longrightarrow> ErrorProcessing (name f) e \<in> set msgs)))"
proof (intro conjI impI)
  assume "get_text_chunks L cfg txt = Inl e'"
  then show "text_splitter L (CHUNK_SIZE cfg) (CHUNK_OVERLAP cfg) = Inl e' \<or>
      (\<exists>split_text. text_splitter L (CHUNK_SIZE cfg) (CHUNK_OVERLAP cfg) = Inr split_text \<and>
                     split_text txt = Inl e')"
    by (auto simp: get_text_chunks_def split: sum.splits)
next
  assume rejected: "text_splitter L (CHUNK_SIZE cfg) (CHUNK_OVERLAP cfg) = Inl e"
  let ?b0 = "\<lparr>all_text_chunks = [], processed_count = 0,
              registry = processed_documents st, shown = []\<rparr>"
  obtain msgs where run: "run_batch L cfg now uploaded_files st = ?b0\<lparr>shown := shown ?b0 @ msgs\<rparr>"
    and each: "\<forall>f \<in> set uploaded_files.
        validate_pdf_file cfg f = None \<and> strip (fst (get_pdf_text [f])) \<noteq> []
        \<longrightarrow> ErrorProcessing (name f) e \<in> set msgs"
    using process_files_rejected [OF rejected, of now 0 uploaded_files ?b0]
    unfolding run_batch_def by blast
  have out: "process_documents L cfg now uploaded_files st = (st, msgs @ [NoDocumentsProcessed])"
    by (simp add: process_documents_def run)
  show "fst (process_documents L cfg now uploaded_files st) = st"
    by (simp add: out)
  show "\<exists>msgs. snd (process_documents L cfg now uploaded_files st) = msgs @ [NoDocumentsProcessed] \<and>
         (\<forall>f \<in> set uploaded_files.
            validate_pdf_file cfg f = None \<and> strip (fst (get_pdf_text [f])) \<noteq> []
            \<longrightarrow> ErrorProcessing (name f) e \<in> set msgs)"
    using out each by auto
qed

theorem rejected_configuration_fails_each_document_witness:
  "(text_splitter strict_library (CHUNK_SIZE large_overlap_config)
      (CHUNK_OVERLAP large_overlap_config) =
      Inl (Exception ''Got a larger chunk overlap than chunk size'') \<or>
    (\<exists>split_text. text_splitter strict_library (CHUNK_SIZE large_overlap_config)
        (CHUNK_OVERLAP large_overlap_config) = Inr split_text \<and>
      split_text ''Alpha'' = Inl (Exception ''Got a larger chunk overlap than chunk size''))) \<and>
   fst (process_documents strict_library large_overlap_config clock [file_blank, file_a]
          (state_of [chunk_page_2])) = state_of [chunk_page_2] \<and>
   (\<exists>msgs. snd (process_documents strict_library large_overlap_config clock [file_blank, file_a]
                  (state_of [chunk_page_2])) = msgs @ [NoDocumentsProcessed] \<and>
           ErrorProcessing ''a.pdf'' (Exception ''Got a larger chunk overlap than chunk size'')
             \<in> set msgs)"
proof -
  have rejected: "text_splitter strict_library (CHUNK_SIZE large_overlap_config)
      (CHUNK_OVERLAP large_overlap_config) =
      Inl (Exception ''Got a larger chunk overlap than chunk size'')"
    by (simp add: strict_library_def large_overlap_config_def)
  have raised: "get_text_chunks strict_library large_overlap_config ''Alpha'' =
      Inl (Exception ''Got a larger chunk overlap than chunk size'')"
    by (simp add: get_text_chunks_def rejected)
  have valid: "validate_pdf_file large_overlap_config file_a = None \<and>
      strip (fst (get_pdf_text [file_a])) \<noteq> []"
    by code_simp
  have nm: "name file_a = ''a.pdf''" "file_a \<in> set [file_blank, file_a]"
    by (simp_all add: file_a_def)
  note fact = rejected_configuration_fails_each_document
    [of strict_library large_overlap_config "''Alpha''"
        "Exception ''Got a larger chunk overlap than chunk size''"
        "Exception ''Got a larger chunk overlap than chunk size''" clock "[file_blank, file_a]"
        "state_of [chunk_page_2]"]
  from fact raised
  have first: "text_splitter strict_library (CHUNK_SIZE large_overlap_config)
      (CHUNK_OVERLAP large_overlap_config) =
      Inl (Exception ''Got a larger chunk overlap than chunk size'') \<or>
    (\<exists>split_text. text_splitter strict_library (CHUNK_SIZE large_overlap_config)
        (CHUNK_OVERLAP large_overlap_config) = Inr split_text \<and>
      split_text ''Alpha'' = Inl (Exception ''Got a larger chunk overlap than chunk size''))"
    by blast
  from fact rejected
  have "fst (process_documents strict_library large_overlap_config clock [file_blank, file_a]
          (state_of [chunk_page_2])) = state_of [chunk_page_2] \<and>
      (\<exists>msgs. snd (process_documents strict_library large_overlap_config clock [file_blank, file_a]
                  (state_of [chunk_page_2])) = msgs @ [NoDocumentsProcessed] \<and>
         (\<forall>f \<in> set [file_blank, file_a].
            validate_pdf_file large_overlap_config f = None \<and> strip (fst (get_pdf_text [f])) \<noteq> []
            \<longrightarrow> ErrorProcessing (name f) (Exception ''Got a larger chunk overlap than chunk size'')
                  \<in> set msgs))"
    by blast
  then have "fst (process_documents strict_library large_overlap_config clock [file_blank, file_a]
          (state_of [chunk_page_2])) = state_of [chunk_page_2] \<and>
      (\<exists>msgs. snd (process_documents strict_library large_overlap_config clock [file_blank, file_a]
                  (state_of [chunk_page_2])) = msgs @ [NoDocumentsProcessed] \<and>
           ErrorProcessing ''a.pdf'' (Exception ''Got a larger chunk overlap than chunk size'')
             \<in> set msgs)"
    using valid nm by metis
  with first show ?thesis by blast
qed

text \<open>
  With an overlap larger than the chunk size the refusal is shown only after
  \<open>blank.pdf\<close> has been handled, and nothing is raised; with an overlap equal to the chunk
  size the splitter that refuses only larger overlaps lets chunks through.
\<close>

theorem configuration_error_not_raised_counterexample:
  "CHUNK_OVERLAP large_overlap_config > CHUNK_SIZE large_overlap_config \<and>
   snd (process_documents strict_library large_overlap_config clock [file_blank, file_a] empty_state) =
     [NoTextExtracted ''blank.pdf'',
      ErrorProcessing ''a.pdf'' (Exception ''Got a larger chunk overlap than chunk size''),
      NoDocumentsProcessed] \<and>
   CHUNK_OVERLAP equal_overlap_config = CHUNK_SIZE equal_overlap_config \<and>
   get_text_chunks strict_library equal_overlap_config (fst (get_pdf_text [file_a])) = Inr [chunk_a]"
  unfolding chunk_a_def by code_simp

section \<open>A page that cannot be decoded\<close>

text \<open>
  Claim C6, as the code has it. When \<open>extract_text\<close> raises on a page, the extraction of
  that document ends there: the text of the pages before it is returned, no later page of
  that document is read, one message is shown, and the documents after it are extracted
  as usual.
\<close>

theorem failing_page_ends_extraction_of_its_document:
  assumes "reader pdf_doc = Inr (before @ Inl e # after)"
    and "\<forall>p \<in> set before. \<exists>page_text. p = Inr page_text"
  shows "fst (get_pdf_text (pdf_doc # pdf_docs)) =
           fst (get_pdf_text [pdf_doc\<lparr>reader := Inr before\<rparr>]) @ fst (get_pdf_text pdf_docs) \<and>
         snd (get_pdf_text (pdf_doc # pdf_docs)) =
           ErrorReading (name pdf_doc) e # snd (get_pdf_text pdf_docs)"
proof -
  let ?text = "fst (extract_pages (name pdf_doc) 0 before [])"
  have stop: "extract_pages (name pdf_doc) 0 (before @ Inl e # after) [] = (?text, Some e)"
    and fine: "snd (extract_pages (name pdf_doc) 0 before []) = None"
    using extract_pages_until_failure [OF assms(2), of "name pdf_doc" 0 e after "[]"] by simp_all
  have whole: "get_pdf_text (pdf_doc # pdf_docs) =
      pdf_text_loop pdf_docs ?text [ErrorReading (name pdf_doc) e]"
    using assms(1) stop by (simp add: get_pdf_text_def)
  have cut: "get_pdf_text [pdf_doc\<lparr>reader := Inr before\<rparr>] = (?text, [])"
    using fine by (cases "extract_pages (name pdf_doc) 0 before []") (simp add: get_pdf_text_def)
  have "pdf_text_loop pdf_docs (?text @ []) ([ErrorReading (name pdf_doc) e] @ []) =
      (?text @ fst (pdf_text_loop pdf_docs [] []),
       [ErrorReading (name pdf_doc) e] @ snd (pdf_text_loop pdf_docs [] []))"
    by (rule pdf_text_loop_acc)
  then show ?thesis
    using whole cut by (simp add: get_pdf_text_def)
qed

lemma file_b_pages:
  "reader file_b = Inr ([Inr ''Alpha''] @ Inl (Exception ''cannot decode'') # [Inr ''Gamma'']) \<and>
   (\<forall>p \<in> set [Inr ''Alpha'' :: exn + string]. \<exists>page_text. p = Inr page_text)"
  by (simp add: file_b_def)

theorem failing_page_ends_extraction_of_its_document_witness:
  "fst (get_pdf_text [file_b, file_a]) =
     ''\<newline>\<newline>--- Page 1 of b.pdf ---\<newline>Alpha'' @ ''\<newline>\<newline>--- Page 1 of a.pdf ---\<newline>'' @ long_text \<and>
   snd (get_pdf_text [file_b, file_a]) = [ErrorReading ''b.pdf'' (Exception ''cannot decode'')]"
proof -
  have cut: "get_pdf_text [file_b\<lparr>reader := Inr [Inr ''Alpha'']\<rparr>] =
      (''\<newline>\<newline>--- Page 1 of b.pdf ---\<newline>Alpha'', [])"
    by code_simp
  have other: "get_pdf_text [file_a] = (''\<newline>\<newline>--- Page 1 of a.pdf ---\<newline>'' @ long_text, [])"
    by code_simp
  show ?thesis
    using failing_page_ends_extraction_of_its_document
      [OF file_b_pages [THEN conjunct1] file_b_pages [THEN conjunct2], of "[file_a]"] cut other
    by (simp add: file_b_def)
qed

text \<open>Page 3 of \<open>file_b\<close> can be decoded, and its text is not in what is extracted.\<close>

theorem later_page_lost_counterexample:
  "reader file_b = Inr [Inr ''Alpha'', Inl (Exception ''cannot decode''), Inr ''Gamma''] \<and>
   fst (get_pdf_text [file_b]) = page_marker 0 ''b.pdf'' @ ''Alpha'' \<and>
   \<not> contains ''Gamma'' (fst (get_pdf_text [file_b]))"
  by (simp add: file_b_def) code_simp

section \<open>Order of the citations\<close>

text \<open>
  Claim C7. For an answered question the sources are the citations of the retrieved
  documents in retrieval order, one for each document that has one: a citation that
  several documents give appears as often as there are such documents.
\<close>

theorem process_question_sources_in_retrieval_order:
  assumes "vector_store st = Some store"
    and "similarity_search L store question 5 = Inr docs"
    and "docs \<noteq> []"
    and "conversational_chain L = Inr chain"
    and "chain docs question = Inr output_text"
  shows "sources (fst (process_question L st question)) =
           map the (filter (\<lambda>found. found \<noteq> None) (map extract_source_info docs)) \<and>
         (\<forall>src. count_list (sources (fst (process_question L st question))) src =
                length (filter (\<lambda>doc. extract_source_info doc = Some src) docs))"
proof -
  have eq: "sources (fst (process_question L st question)) =
      map the (filter (\<lambda>found. found \<noteq> None) (map extract_source_info docs))"
    using assms by (simp add: process_question_def collect_sources_acc)
  have cnt: "count_list (map the (filter (\<lambda>found. found \<noteq> None) (map extract_source_info ds))) src =
      length (filter (\<lambda>doc. extract_source_info doc = Some src) ds)" for ds src
    by (induction ds) auto
  show ?thesis using eq cnt by simp
qed

theorem process_question_sources_in_retrieval_order_witness:
  "sources (fst (process_question demo_library (state_of [chunk_page_2, chunk_page_1, chunk_page_1])
                   ''What color is the sky?'')) =
     [\<lparr>document = ''a.pdf'', page = ''2''\<rparr>, \<lparr>document = ''a.pdf'', page = ''1''\<rparr>,
      \<lparr>document = ''a.pdf'', page = ''1''\<rparr>] \<and>
   count_list (sources (fst (process_question demo_library
                   (state_of [chunk_page_2, chunk_page_1, chunk_page_1]) ''What color is the sky?'')))
     \<lparr>document = ''a.pdf'', page = ''1''\<rparr> = 2"
  using process_question_sources_in_retrieval_order
    [of "state_of [chunk_page_2, chunk_page_1, chunk_page_1]"
        "\<lparr>docstore = [chunk_page_2, chunk_page_1, chunk_page_1],
          index = map length [chunk_page_2, chunk_page_1, chunk_page_1]\<rparr>"
        demo_library "''What color is the sky?''" "[chunk_page_2, chunk_page_1, chunk_page_1]"
        "\<lambda>docs question. Inr ''The sky is blue.''" "''The sky is blue.''"]
  by (simp add: state_of_def demo_library_def source_chunk_page_1 source_chunk_page_2)

section \<open>A failing generation call\<close>

text \<open>
  Claim C8. When the call of the generation chain raises, \<open>process_question\<close> returns a
  response whose answer is the error's message after \<open>Error processing question: \<close> and
  whose list of sources is empty.
\<close>

theorem process_question_generation_fails:
  assumes "vector_store st = Some store"
    and "similarity_search L store question 5 = Inr docs"
    and "docs \<noteq> []"
    and "conversational_chain L = Inr chain"
    and "chain docs question = Inl e"
  shows "fst (process_question L st question) =
           \<lparr>answer = ''Error processing question: '' @ message e, sources = []\<rparr>"
  using assms by (simp add: process_question_def error_response_def)

theorem process_question_generation_fails_witness:
  "fst (process_question failing_chain_library (state_of [chunk_page_1]) ''What color is the sky?'') =
     \<lparr>answer = ''Error processing question: quota exceeded'', sources = []\<rparr>"
  using process_question_generation_fails
    [of "state_of [chunk_page_1]" "\<lparr>docstore = [chunk_page_1], index = map length [chunk_page_1]\<rparr>"
        failing_chain_library "''What color is the sky?''" "[chunk_page_1]"
        "\<lambda>docs question. Inl (Exception ''quota exceeded'')" "Exception ''quota exceeded''"]
  by (simp add: state_of_def failing_chain_library_def demo_library_def)

section \<open>What a processing call replaces\<close>

text \<open>
  Claim C9, as the code has it. When a call accepts at least one document and the index
  build succeeds, the new index holds exactly the chunks of the accepted documents of
  this call, in upload order, whatever the index held before. The registry keeps the entry
  under every name that no accepted document of this call bears, and under the name of an
  accepted document it holds the entry written for the last accepted document of that
  name.
\<close>

theorem successful_build_replaces_index:
  assumes "concat (map (chunks_of_file L cfg) uploaded_files) \<noteq> []"
    and "embed_documents L (concat (map (chunks_of_file L cfg) uploaded_files)) = Inr vectors"
    and "save_local L \<lparr>docstore = concat (map (chunks_of_file L cfg) uploaded_files),
                         index = vectors\<rparr> = Inr ()"
  shows "vector_store (fst (process_documents L cfg now uploaded_files st)) =
           Some \<lparr>docstore = concat (map (chunks_of_file L cfg) uploaded_files), index = vectors\<rparr> \<and>
         (\<forall>nm. (\<forall>f \<in> set uploaded_files. chunks_of_file L cfg f = [] \<or> name f \<noteq> nm) \<longrightarrow>
            processed_documents (fst (process_documents L cfg now uploaded_files st)) nm =
              processed_documents st nm) \<and>
         (\<forall>before f later.
            uploaded_files = before @ f # later \<and> chunks_of_file L cfg f \<noteq> [] \<and>
            (\<forall>g \<in> set later. chunks_of_file L cfg g = [] \<or> name g \<noteq> name f) \<longrightarrow>
            processed_documents (fst (process_documents L cfg now uploaded_files st)) (name f) =
              Some (entry_of_file L cfg now (length before) f))"
proof -
  let ?b = "run_batch L cfg now uploaded_files st"
  have all_chunks: "all_text_chunks ?b = concat (map (chunks_of_file L cfg) uploaded_files)"
    by (simp add: run_batch_def process_files_chunks)
  have built: "get_vector_store L (all_text_chunks ?b) =
      (Some \<lparr>docstore = concat (map (chunks_of_file L cfg) uploaded_files), index = vectors\<rparr>, [])"
    using assms(2,3) by (simp add: all_chunks get_vector_store_def FAISS_from_texts_def)
  have reg: "processed_documents (fst (process_documents L cfg now uploaded_files st)) = registry ?b"
    by (simp add: process_documents_def Let_def split: prod.splits option.splits)
  have kept: "registry ?b nm = processed_documents st nm"
    if "\<forall>f \<in> set uploaded_files. chunks_of_file L cfg f = [] \<or> name f \<noteq> nm" for nm
    using process_files_registry [OF that] by (simp add: run_batch_def)
  have written: "registry ?b (name f) = Some (entry_of_file L cfg now (length before) f)"
    if "uploaded_files = before @ f # later" and "chunks_of_file L cfg f \<noteq> []"
      and "\<forall>g \<in> set later. chunks_of_file L cfg g = [] \<or> name g \<noteq> name f"
    for before f later
    using process_files_entry [OF that(2,3), of now 0 before] by (simp add: run_batch_def that(1))
  have "vector_store (fst (process_documents L cfg now uploaded_files st)) =
      Some \<lparr>docstore = concat (map (chunks_of_file L cfg) uploaded_files), index = vectors\<rparr>"
    using assms(1) built all_chunks by (simp add: process_documents_def Let_def)
  moreover have "\<forall>nm. (\<forall>f \<in> set uploaded_files. chunks_of_file L cfg f = [] \<or> name f \<noteq> nm) \<longrightarrow>
      processed_documents (fst (process_documents L cfg now uploaded_files st)) nm =
        processed_documents st nm"
    using kept by (simp only: reg) blast
  moreover have "\<forall>before f later.
      uploaded_files = before @ f # later \<and> chunks_of_file L cfg f \<noteq> [] \<and>
      (\<forall>g \<in> set later. chunks_of_file L cfg g = [] \<or> name g \<noteq> name f) \<longrightarrow>
      processed_documents (fst (process_documents L cfg now uploaded_files st)) (name f) =
        Some (entry_of_file L cfg now (length before) f)"
    using written by (simp only: reg) blast
  ultimately show ?thesis
    by (intro conjI)
qed

lemma chunks_of_batch:
  "chunks_of_file demo_library demo_config file_blank = [] \<and>
   chunks_of_file demo_library demo_config file_a2 =
     [chunk_a, ''--- Page 2 of a.pdf ---\<newline>'' @ long_text] \<and>
   chunks_of_file demo_library demo_config file_d = [''--- Page 1 of d.pdf ---\<newline>'' @ long_text]"
  unfolding chunk_a_def by code_simp

lemma entry_of_file_d:
  "entry_of_file demo_library demo_config clock 2 file_d =
     \<lparr>pages = 1, chunks = 1, size_mb = 12, processed_time = ''2024-01-01 00:00:02''\<rparr>"
  by code_simp

theorem successful_build_replaces_index_witness:
  "vector_store (fst (process_documents demo_library demo_config clock
                        [file_blank, file_a2, file_d] earlier_state)) =
     Some \<lparr>docstore = [chunk_a, ''--- Page 2 of a.pdf ---\<newline>'' @ long_text,
                       ''--- Page 1 of d.pdf ---\<newline>'' @ long_text],
           index = [144, 144, 144]\<rparr> \<and>
   processed_documents (fst (process_documents demo_library demo_config clock
                        [file_blank, file_a2, file_d] earlier_state)) ''old.pdf'' =
     Some \<lparr>pages = 3, chunks = 1, size_mb = 12, processed_time = ''2023-12-31 23:59:59''\<rparr> \<and>
   processed_documents (fst (process_documents demo_library demo_config clock
                        [file_blank, file_a2, file_d] earlier_state)) ''d.pdf'' =
     Some \<lparr>pages = 1, chunks = 1, size_mb = 12, processed_time = ''2024-01-01 00:00:02''\<rparr>"
proof -
  let ?files = "[file_blank, file_a2, file_d]"
  let ?chunks = "[chunk_a, ''--- Page 2 of a.pdf ---\<newline>'' @ long_text,
                  ''--- Page 1 of d.pdf ---\<newline>'' @ long_text]"
  have batch: "concat (map (chunks_of_file demo_library demo_config) ?files) = ?chunks"
    by (simp add: chunks_of_batch)
  have accepted: "concat (map (chunks_of_file demo_library demo_config) ?files) \<noteq> []"
    by (simp add: chunks_of_batch)
  have embedded: "embed_documents demo_library
      (concat (map (chunks_of_file demo_library demo_config) ?files)) = Inr [144, 144, 144]"
  proof -
    have "embed_documents demo_library texts = Inr (map length texts)" for texts
      by (simp add: demo_library_def)
    then show ?thesis
      by (simp add: chunks_of_batch chunk_a_def long_text_def)
  qed
  have saved: "save_local demo_library
      \<lparr>docstore = concat (map (chunks_of_file demo_library demo_config) ?files),
       index = [144, 144, 144]\<rparr> = Inr ()"
    by (simp add: demo_library_def)
  note fact = successful_build_replaces_index [OF accepted embedded saved, of clock earlier_state]
  have names: "name file_blank = ''blank.pdf''" "name file_a2 = ''a.pdf''" "name file_d = ''d.pdf''"
    by (simp_all add: file_blank_def file_a2_def file_d_def)
  have other: "\<forall>f \<in> set ?files. chunks_of_file demo_library demo_config f = [] \<or> name f \<noteq> ''old.pdf''"
    by (simp add: names)
  have last: "?files = [file_blank, file_a2] @ file_d # [] \<and>
      chunks_of_file demo_library demo_config file_d \<noteq> [] \<and>
      (\<forall>g \<in> set []. chunks_of_file demo_library demo_config g = [] \<or> name g \<noteq> name file_d)"
    by (simp add: chunks_of_batch)
  have index_now: "vector_store (fst (process_documents demo_library demo_config clock ?files
      earlier_state)) = Some \<lparr>docstore = ?chunks, index = [144, 144, 144]\<rparr>"
    using fact batch by simp
  have old_kept: "processed_documents (fst (process_documents demo_library demo_config clock ?files
      earlier_state)) ''old.pdf'' = processed_documents earlier_state ''old.pdf''"
    using fact other by blast
  have d_written: "processed_documents (fst (process_documents demo_library demo_config clock ?files
      earlier_state)) (name file_d) =
      Some (entry_of_file demo_library demo_config clock (length [file_blank, file_a2]) file_d)"
    using fact last by blast
  have old_entry: "processed_documents earlier_state ''old.pdf'' =
      Some \<lparr>pages = 3, chunks = 1, size_mb = 12, processed_time = ''2023-12-31 23:59:59''\<rparr>"
    by (simp add: earlier_state_def)
  have two: "length [file_blank, file_a2] = 2"
    by simp
  show ?thesis
    using index_now old_kept d_written
    by (simp only: names old_entry two entry_of_file_d)
qed

text \<open>
  A call that accepts \<open>file_a\<close> while the embedding backend raises leaves the earlier index
  in place, with the chunk of the earlier call; and after \<open>file_a2\<close>, of two pages, was
  processed, processing \<open>file_a\<close>, of one page and the same name, replaces the entry.
\<close>

theorem index_not_rebuilt_or_entry_overwritten_counterexample:
  "chunks_of_file failing_embedding_library demo_config file_a = [chunk_a] \<and>
   vector_store (fst (process_documents failing_embedding_library demo_config clock [file_a]
                        earlier_state)) =
     Some \<lparr>docstore = [chunk_page_2], index = [41]\<rparr> \<and>
   map_option pages
     (processed_documents (fst (process_documents demo_library demo_config clock [file_a2] empty_state))
        ''a.pdf'') = Some 2 \<and>
   map_option pages
     (processed_documents (fst (process_documents demo_library demo_config clock [file_a]
        (fst (process_documents demo_library demo_config clock [file_a2] empty_state)))) ''a.pdf'') =
     Some 1"
  unfolding chunk_a_def by code_simp

section \<open>Chunks without a page header\<close>

text \<open>
  Claim C10. A chunk in which no line contains both \<open>--- Page\<close> and \<open> of \<close>, or in which
  every such line lacks \<open>--- Page \<close> before its first \<open> of \<close>, gives no citation, and an
  answered question that retrieved it has fewer sources than retrieved documents.
\<close>

theorem chunk_without_marker_yields_no_citation:
  assumes "\<forall>line \<in> set (split_str ''\<newline>'' content).
             \<not> (contains ''--- Page'' line \<and> contains '' of '' line) \<or>
             \<not> contains ''--- Page '' (hd (split_str '' of '' line))"
  shows "extract_source_info content = None \<and>
         (\<forall>L st question store docs chain output_text.
            vector_store st = Some store \<and> similarity_search L store question 5 = Inr docs \<and>
            content \<in> set docs \<and> conversational_chain L = Inr chain \<and>
            chain docs question = Inr output_text
            \<longrightarrow> length (sources (fst (process_question L st question))) < length docs)"
proof -
  have none: "extract_source_info content = None"
    unfolding extract_source_info_def using assms by (rule source_of_lines_none)
  have short: "length (filter (\<lambda>doc. extract_source_info doc \<noteq> None) docs) < length docs"
    if "content \<in> set docs" for docs
    using that none by (intro length_filter_less[of content]) auto
  show ?thesis
    using none short by (auto simp: process_question_def length_collect_sources)
qed

lemma chunk_plain_lines:
  "\<forall>line \<in> set (split_str ''\<newline>'' chunk_plain).
     \<not> (contains ''--- Page'' line \<and> contains '' of '' line) \<or>
     \<not> contains ''--- Page '' (hd (split_str '' of '' line))"
  by (simp add: chunk_plain_def)

theorem chunk_without_marker_yields_no_citation_witness:
  "extract_source_info chunk_plain = None \<and>
   length (sources (fst (process_question demo_library (state_of [chunk_page_1, chunk_plain])
                           ''What color is the sky?''))) < length [chunk_page_1, chunk_plain]"
proof -
  note fact = chunk_without_marker_yields_no_citation [OF chunk_plain_lines]
  from fact have none: "extract_source_info chunk_plain = None" ..
  from fact have
    "vector_store (state_of [chunk_page_1, chunk_plain]) =
       Some \<lparr>docstore = [chunk_page_1, chunk_plain], index = map length [chunk_page_1, chunk_plain]\<rparr> \<and>
     similarity_search demo_library
       \<lparr>docstore = [chunk_page_1, chunk_plain], index = map length [chunk_page_1, chunk_plain]\<rparr>
       ''What color is the sky?'' 5 = Inr [chunk_page_1, chunk_plain] \<and>
     chunk_plain \<in> set [chunk_page_1, chunk_plain] \<and>
     conversational_chain demo_library = Inr (\<lambda>docs question. Inr ''The sky is blue.'') \<and>
     (\<lambda>docs question. Inr ''The sky is blue.'') [chunk_page_1, chunk_plain] ''What color is the sky?''
       = Inr ''The sky is blue.''
     \<longrightarrow> length (sources (fst (process_question demo_library (state_of [chunk_page_1, chunk_plain])
                           ''What color is the sky?''))) < length [chunk_page_1, chunk_plain]"
    by blast
  then have "length (sources (fst (process_question demo_library (state_of [chunk_page_1, chunk_plain])
                           ''What color is the sky?''))) < length [chunk_page_1, chunk_plain]"
    by (simp add: state_of_def demo_library_def)
  with none show ?thesis ..
qed

end
